theory Spec2Isabelle
  imports Complex_Main "HOL-Library.Sublist"
begin

section \<open>Data model (types.ts)\<close>

text \<open>
  JavaScript numbers are modelled as \<open>int\<close>: the options and page counters of this
  program are integers, and \<open>0\<close> is the falsy one (fractions and \<open>NaN\<close> are not
  represented). Strings are \<open>string\<close>, an optional field \<open>f?: T\<close> is \<open>T option\<close> with
  \<open>None\<close> for \<open>undefined\<close>, and a \<open>Date\<close> is its epoch milliseconds.
\<close>

record NewsArticle =
  title :: string
  url :: string
  summary :: "string option"
  content :: "string option"
  author :: "string option"
  publishedAt :: int
  source :: string
  category :: "string option"
  tags :: "string list option"
  imageUrl :: "string option"

record ScraperResult =
  articles :: "NewsArticle list"
  totalScraped :: int
  errors :: "string list"
  executionTime :: int

text \<open>\<open>NewsCollectorOptions\<close>: every key optional.\<close>

record NewsCollectorOptions =
  opt_outputDir :: "string option"
  opt_maxConcurrent :: "int option"
  opt_retryAttempts :: "int option"
  opt_delayBetweenRequests :: "int option"
  opt_includeContent :: "bool option"

text \<open>\<open>Required<NewsCollectorOptions>\<close>: the options the collector keeps.\<close>

record RequiredOptions =
  outputDir :: string
  maxConcurrent :: int
  retryAttempts :: int
  delayBetweenRequests :: int
  includeContent :: bool

text \<open>
  A value that a JavaScript \<open>throw\<close> (or a rejected promise) carries: an \<open>Error\<close>
  object with its message, or anything else.
\<close>

datatype js_thrown = JsError string | NonError

section \<open>NewsCollector (news-collector.ts)\<close>

subsection \<open>The constructor\<close>

text \<open>\<open>x || d\<close> on an optional number, string and boolean.\<close>

definition num_or :: "int option \<Rightarrow> int \<Rightarrow> int" where
  "num_or x d = (case x of None \<Rightarrow> d | Some v \<Rightarrow> if v = 0 then d else v)"

definition str_or :: "string option \<Rightarrow> string \<Rightarrow> string" where
  "str_or x d = (case x of None \<Rightarrow> d | Some v \<Rightarrow> if v = [] then d else v)"

definition bool_or :: "bool option \<Rightarrow> bool \<Rightarrow> bool" where
  "bool_or x d = (case x of None \<Rightarrow> d | Some v \<Rightarrow> if v then v else d)"

definition constructor :: "NewsCollectorOptions \<Rightarrow> RequiredOptions" where
  "constructor options =
     \<lparr> outputDir = str_or (opt_outputDir options) ''./data'',
       maxConcurrent = num_or (opt_maxConcurrent options) 3,
       retryAttempts = num_or (opt_retryAttempts options) 3,
       delayBetweenRequests = num_or (opt_delayBetweenRequests options) 1000,
       includeContent = bool_or (opt_includeContent options) False \<rparr>"

subsection \<open>runScraperWithRetry\<close>

text \<open>
  The collector sees a scraper only through \<open>scraper.scrape()\<close>. A scraper is modelled
  by what that call does on each attempt: attempt \<open>n\<close> either rejects with a thrown
  value (\<open>Inl\<close>) or resolves to a \<open>ScraperResult\<close> (\<open>Inr\<close>).
\<close>

type_synonym scraper = "int \<Rightarrow> js_thrown + ScraperResult"

text \<open>
  What one call of \<open>runScraperWithRetry\<close> did, in order: the calls of
  \<open>scraper.scrape()\<close> with their attempt number and the calls of
  \<open>this.delay(ms)\<close> with the requested milliseconds.
\<close>

datatype retry_event = Attempt int | Backoff int

record retry_run =
  outcome :: ScraperResult
  events :: "retry_event list"

text \<open>\<open>error instanceof Error ? error : new Error('Unknown error')\<close>, kept as the message.\<close>

fun as_Error :: "js_thrown \<Rightarrow> string" where
  "as_Error (JsError m) = m"
| "as_Error NonError = ''Unknown error''"

text \<open>\<open>lastError?.message || 'Unknown error'\<close>.\<close>

definition final_message :: "string option \<Rightarrow> string" where
  "final_message lastError = str_or lastError ''Unknown error''"

text \<open>
  The \<open>for (let attempt = 1; attempt <= retryAttempts; attempt++)\<close> loop, entered at
  \<open>attempt\<close> with the current \<open>lastError\<close> (\<open>None\<close> is \<open>null\<close>) and the events so far.
\<close>

function retry_loop ::
  "RequiredOptions \<Rightarrow> scraper \<Rightarrow> int \<Rightarrow> string option \<Rightarrow> retry_event list \<Rightarrow> retry_run"
where
  "retry_loop options scraper attempt lastError evs =
     (if attempt \<le> retryAttempts options then
        (case scraper attempt of
           Inr result \<Rightarrow> \<lparr> outcome = result, events = evs @ [Attempt attempt] \<rparr>
         | Inl error \<Rightarrow>
             retry_loop options scraper (attempt + 1) (Some (as_Error error))
               (if attempt < retryAttempts options
                then evs @ [Attempt attempt, Backoff (attempt * 2000)]
                else evs @ [Attempt attempt]))
      else
        \<lparr> outcome = \<lparr> articles = [], totalScraped = 0,
                      errors = [final_message lastError], executionTime = 0 \<rparr>,
          events = evs \<rparr>)"
  by pat_completeness auto
termination
  by (relation "measure (\<lambda>(options, scraper, attempt, lastError, evs).
        nat (retryAttempts options + 1 - attempt))") auto

declare retry_loop.simps [simp del]

definition runScraperWithRetry :: "RequiredOptions \<Rightarrow> scraper \<Rightarrow> retry_run" where
  "runScraperWithRetry options scraper = retry_loop options scraper 1 None []"

text \<open>The attempt numbers and the backoff waits of a run, read off its events.\<close>

fun attempts_of :: "retry_event list \<Rightarrow> int list" where
  "attempts_of [] = []"
| "attempts_of (Attempt n # evs) = n # attempts_of evs"
| "attempts_of (Backoff ms # evs) = attempts_of evs"

fun backoffs_of :: "retry_event list \<Rightarrow> int list" where
  "backoffs_of [] = []"
| "backoffs_of (Attempt n # evs) = backoffs_of evs"
| "backoffs_of (Backoff ms # evs) = ms # backoffs_of evs"

text \<open>The events of attempts \<open>a, a+1, ..., b\<close> that all failed and were each followed by a wait.\<close>

definition failed_attempts :: "int \<Rightarrow> int \<Rightarrow> retry_event list" where
  "failed_attempts a b = concat (map (\<lambda>i. [Attempt i, Backoff (i * 2000)]) [a..b])"

subsection \<open>collectAll\<close>

text \<open>What \<open>Promise.allSettled\<close> reports for one promise of the batch.\<close>

datatype 'a settled = Fulfilled 'a | Rejected js_thrown

text \<open>
  What the batch loop did, in order: a batch launched and awaited (with the retry runs
  of its scrapers, in the order of the batch), and a call \<open>this.delay(ms)\<close>.
\<close>

datatype collect_event = BatchRun "retry_run list" | Delay int

text \<open>The local variables \<open>allArticles\<close>, \<open>results\<close>, \<open>totalErrors\<close> of \<open>collectAll\<close>, and the trace.\<close>

record collect_state =
  cur_allArticles :: "NewsArticle list"
  cur_results :: "ScraperResult list"
  cur_totalErrors :: int
  trace :: "collect_event list"

text \<open>The object \<open>collectAll\<close> resolves to.\<close>

record CollectionReport =
  allArticles :: "NewsArticle list"
  results :: "ScraperResult list"
  totalArticles :: int
  totalErrors :: int
  report_executionTime :: int

text \<open>
  \<open>Array.prototype.slice(start, end)\<close> on integers: a negative index counts from the
  end, both are clamped to the array, and an empty range gives the empty array.
\<close>

definition slice :: "'a list \<Rightarrow> int \<Rightarrow> int \<Rightarrow> 'a list" where
  "slice xs start end =
     (let len = int (length xs);
          from = (if start < 0 then max (len + start) 0 else min start len);
          to = (if end < 0 then max (len + end) 0 else min end len)
      in take (nat (to - from)) (drop (nat from) xs))"

text \<open>The inner loop \<open>for (let j = 0; j < batchResults.length; j++)\<close>.\<close>

fun settle_results :: "ScraperResult settled list \<Rightarrow> collect_state \<Rightarrow> collect_state" where
  "settle_results [] st = st"
| "settle_results (Fulfilled scraperResult # rest) st =
     settle_results rest
       (st\<lparr> cur_results := cur_results st @ [scraperResult],
            cur_allArticles := cur_allArticles st @ articles scraperResult,
            cur_totalErrors := cur_totalErrors st + int (length (errors scraperResult)) \<rparr>)"
| "settle_results (Rejected reason # rest) st =
     settle_results rest (st\<lparr> cur_totalErrors := cur_totalErrors st + 1 \<rparr>)"

text \<open>
  The outer loop \<open>for (let i = 0; i < scrapers.length; i += maxConcurrent)\<close>, entered
  at \<open>i\<close>. With \<open>maxConcurrent \<le> 0\<close> and a scraper left it never ends, so the result is
  an option and \<open>None\<close> is not returning. \<open>runScraperWithRetry\<close> catches every
  exception of \<open>scrape()\<close>, so each promise of the batch is fulfilled;
  \<open>Promise.allSettled\<close> lists the settlements in the order of the promises.
\<close>

partial_function (option) batch_loop ::
  "RequiredOptions \<Rightarrow> scraper list \<Rightarrow> int \<Rightarrow> collect_state \<Rightarrow> collect_state option"
where
  "batch_loop options scrapers i st =
     (if i < int (length scrapers) then
        (let batch = slice scrapers i (i + maxConcurrent options);
             runs = map (runScraperWithRetry options) batch;
             batchResults = map (\<lambda>run. Fulfilled (outcome run)) runs;
             st1 = settle_results batchResults (st\<lparr> trace := trace st @ [BatchRun runs] \<rparr>);
             st2 = (if i + maxConcurrent options < int (length scrapers)
                    then st1\<lparr> trace := trace st1 @ [Delay (delayBetweenRequests options)] \<rparr>
                    else st1)
         in batch_loop options scrapers (i + maxConcurrent options) st2)
      else Some st)"

text \<open>
  The file system and the clock as \<open>collectAll\<close> meets them: what
  \<open>ensureOutputDirectory\<close> and \<open>saveResults\<close> throw (\<open>None\<close>: nothing), and
  \<open>Date.now()\<close> at entry and after the last batch.
\<close>

record collector_env =
  ensureOutputDirectory :: "js_thrown option"
  saveResults :: "js_thrown option"
  startTime :: int
  endTime :: int

definition initial_state :: collect_state where
  "initial_state = \<lparr> cur_allArticles = [], cur_results = [], cur_totalErrors = 0, trace = [] \<rparr>"

definition collectAll ::
  "collector_env \<Rightarrow> RequiredOptions \<Rightarrow> scraper list \<Rightarrow> (js_thrown + CollectionReport) option"
where
  "collectAll env options scrapers =
     (case ensureOutputDirectory env of
        Some e \<Rightarrow> Some (Inl e)
      | None \<Rightarrow>
          (case batch_loop options scrapers 0 initial_state of
             None \<Rightarrow> None
           | Some st \<Rightarrow>
               (case saveResults env of
                  Some e \<Rightarrow> Some (Inl e)
                | None \<Rightarrow>
                    Some (Inr \<lparr> allArticles = cur_allArticles st,
                                results = cur_results st,
                                totalArticles = int (length (cur_allArticles st)),
                                totalErrors = cur_totalErrors st,
                                report_executionTime = endTime env - startTime env \<rparr>))))"

text \<open>The batches and the inter-batch waits of a trace.\<close>

fun batches_of :: "collect_event list \<Rightarrow> retry_run list list" where
  "batches_of [] = []"
| "batches_of (BatchRun runs # evs) = runs # batches_of evs"
| "batches_of (Delay ms # evs) = batches_of evs"

fun delays_of :: "collect_event list \<Rightarrow> int list" where
  "delays_of [] = []"
| "delays_of (BatchRun runs # evs) = delays_of evs"
| "delays_of (Delay ms # evs) = ms # delays_of evs"

text \<open>Consecutive chunks of at most \<open>c\<close> elements, and a separator between neighbours.\<close>

fun chunks :: "nat \<Rightarrow> 'a list \<Rightarrow> 'a list list" where
  "chunks c xs = (if c = 0 \<or> xs = [] then [] else take c xs # chunks c (drop c xs))"

declare chunks.simps [simp del]

fun intersperse :: "'a \<Rightarrow> 'a list \<Rightarrow> 'a list" where
  "intersperse sep [] = []"
| "intersperse sep [x] = [x]"
| "intersperse sep (x # y # ys) = x # sep # intersperse sep (y # ys)"

text \<open>
  The state after the runs \<open>runs\<close> have been executed in batches of \<open>maxConcurrent\<close>,
  in closed form: used to state what the batch loop computes.
\<close>

definition after_runs :: "RequiredOptions \<Rightarrow> retry_run list \<Rightarrow> collect_state \<Rightarrow> collect_state" where
  "after_runs options runs st =
     \<lparr> cur_allArticles = cur_allArticles st @ concat (map (\<lambda>run. articles (outcome run)) runs),
       cur_results = cur_results st @ map outcome runs,
       cur_totalErrors = cur_totalErrors st + (\<Sum>run\<leftarrow>runs. int (length (errors (outcome run)))),
       trace = trace st @ intersperse (Delay (delayBetweenRequests options))
                 (map BatchRun (chunks (nat (maxConcurrent options)) runs)) \<rparr>"

section \<open>BaseScraper (base-scraper.ts)\<close>

subsection \<open>Configuration\<close>

record Selectors =
  sel_articleLinks :: string
  sel_title :: string
  sel_summary :: "string option"
  sel_content :: "string option"
  sel_author :: "string option"
  sel_publishedAt :: "string option"
  sel_category :: "string option"
  sel_tags :: "string option"
  sel_imageUrl :: "string option"

record Pagination =
  enabled :: bool
  nextPageSelector :: "string option"
  maxPages :: "int option"

record ScraperConfig =
  name :: string
  baseUrl :: string
  selectors :: Selectors
  pagination :: "Pagination option"
  delay :: "int option"

text \<open>
  A scraper class: the \<open>config\<close> its constructor passes to \<open>BaseScraper\<close> and its
  implementation of the abstract method \<open>getPageUrl\<close>.
\<close>

record BaseScraper =
  config :: ScraperConfig
  getPageUrl :: "int \<Rightarrow> string"

subsection \<open>The browser, the HTML parser and the platform\<close>

type_synonym html = string

text \<open>
  What the libraries do during one call of \<open>scrape()\<close>; none of it is code of this
  repository. A call that can throw returns \<open>js_thrown + 'a\<close>, or \<open>js_thrown option\<close>
  when it returns nothing. Navigations are numbered in the order the run makes them,
  so the same URL may load differently on a later visit.

  \<^item> \<open>puppeteer_launch\<close>: \<open>puppeteer.launch(...)\<close>; \<open>browser_close\<close>: \<open>browser.close()\<close>.
  \<^item> \<open>browser_newPage\<close>: \<open>browser.newPage()\<close> followed by \<open>page.setUserAgent(...)\<close>.
  \<^item> \<open>page_load n url timeout settle\<close>: navigation number \<open>n\<close>, that is
    \<open>page.goto(url, {waitUntil, timeout})\<close>, \<open>page.waitForTimeout(settle)\<close> and
    \<open>page.content()\<close>.
  \<^item> \<open>page_wait n ms\<close>: the \<open>page.waitForTimeout(ms)\<close> between two listing pages,
    after \<open>n\<close> navigations; \<open>page_close\<close>: \<open>page.close()\<close>.
  \<^item> \<open>attr_each html sel a\<close>: \<open>$(sel).each\<close> collecting \<open>$(element).attr(a)\<close>;
    \<open>attr_first html sel a\<close>: \<open>$(sel).first().attr(a)\<close>.
  \<^item> \<open>text_first html sel\<close>: \<open>$(sel).first().text()\<close>;
    \<open>text_each html sel\<close>: \<open>$(sel).each\<close> collecting \<open>$(element).text()\<close>;
    \<open>match_count html sel\<close>: \<open>$(sel).length\<close>.
  \<^item> \<open>trim\<close>: \<open>String.prototype.trim\<close>; \<open>new_URL href base\<close>: \<open>new URL(href, base).href\<close>.
  \<^item> \<open>Date_parse text\<close>: \<open>new Date(text).getTime()\<close>, \<open>None\<close> when it is \<open>NaN\<close>;
    \<open>Date_now n\<close>: \<open>new Date()\<close> while navigation \<open>n\<close> is the current page.
  \<^item> \<open>clock_start\<close>, \<open>clock_end\<close>: \<open>Date.now()\<close> at the start and at the end of \<open>scrape()\<close>.
\<close>

record collaborators =
  puppeteer_launch :: "js_thrown option"
  browser_close :: "js_thrown option"
  browser_newPage :: "js_thrown option"
  page_load :: "nat \<Rightarrow> string \<Rightarrow> int \<Rightarrow> int \<Rightarrow> js_thrown + html"
  page_wait :: "nat \<Rightarrow> int \<Rightarrow> js_thrown option"
  page_close :: "js_thrown option"
  attr_each :: "html \<Rightarrow> string \<Rightarrow> string \<Rightarrow> js_thrown + string option list"
  attr_first :: "html \<Rightarrow> string \<Rightarrow> string \<Rightarrow> js_thrown + string option"
  text_first :: "html \<Rightarrow> string \<Rightarrow> js_thrown + string"
  text_each :: "html \<Rightarrow> string \<Rightarrow> js_thrown + string list"
  match_count :: "html \<Rightarrow> string \<Rightarrow> js_thrown + nat"
  trim :: "string \<Rightarrow> string"
  new_URL :: "string \<Rightarrow> string \<Rightarrow> js_thrown + string"
  Date_parse :: "string \<Rightarrow> int option"
  Date_now :: "nat \<Rightarrow> int"
  clock_start :: int
  clock_end :: int

text \<open>Sequencing of calls that can throw: the first exception wins.\<close>

definition and_then :: "js_thrown + 'a \<Rightarrow> ('a \<Rightarrow> js_thrown + 'b) \<Rightarrow> js_thrown + 'b" where
  "and_then m f = (case m of Inl e \<Rightarrow> Inl e | Inr v \<Rightarrow> f v)"

text \<open>Truthiness of an optional string: \<open>undefined\<close> and \<open>''\<close> are falsy.\<close>

definition truthy :: "string option \<Rightarrow> bool" where
  "truthy x = (case x of None \<Rightarrow> False | Some s \<Rightarrow> s \<noteq> [])"

text \<open>\<open>s.startsWith(p)\<close>.\<close>

definition startsWith :: "string \<Rightarrow> string \<Rightarrow> bool" where
  "startsWith s p = (take (length p) s = p)"

subsection \<open>Field extraction\<close>

text \<open>
  \<open>extractArticleLinks\<close>: the callback of \<open>each\<close> over the \<open>href\<close> attributes, pushing
  onto \<open>links\<close>. An exception of \<open>new URL\<close> leaves the function.
\<close>

fun collect_links ::
  "collaborators \<Rightarrow> ScraperConfig \<Rightarrow> string option list \<Rightarrow> string list \<Rightarrow> js_thrown + string list"
where
  "collect_links env cfg [] links = Inr links"
| "collect_links env cfg (href # rest) links =
     (if truthy href then
        (if startsWith (the href) ''http'' then collect_links env cfg rest (links @ [the href])
         else (case new_URL env (the href) (baseUrl cfg) of
                 Inl e \<Rightarrow> Inl e
               | Inr fullUrl \<Rightarrow> collect_links env cfg rest (links @ [fullUrl])))
      else collect_links env cfg rest links)"

definition extractArticleLinks :: "collaborators \<Rightarrow> ScraperConfig \<Rightarrow> html \<Rightarrow> js_thrown + string list" where
  "extractArticleLinks env cfg page =
     and_then (attr_each env page (sel_articleLinks (selectors cfg)) ''href'')
       (\<lambda>hrefs. collect_links env cfg hrefs [])"

definition extractText :: "collaborators \<Rightarrow> html \<Rightarrow> string option \<Rightarrow> js_thrown + string option" where
  "extractText env page selector =
     (if \<not> truthy selector then Inr None
      else and_then (text_first env page (the selector)) (\<lambda>text. Inr (Some (trim env text))))"

definition extractPublishedDate :: "collaborators \<Rightarrow> ScraperConfig \<Rightarrow> nat \<Rightarrow> html \<Rightarrow> js_thrown + int" where
  "extractPublishedDate env cfg n page =
     and_then (extractText env page (sel_publishedAt (selectors cfg)))
       (\<lambda>dateText.
          if truthy dateText then
            (case Date_parse env (the dateText) of
               Some date \<Rightarrow> Inr date
             | None \<Rightarrow> Inr (Date_now env n))
          else Inr (Date_now env n))"

definition extractTags :: "collaborators \<Rightarrow> ScraperConfig \<Rightarrow> html \<Rightarrow> js_thrown + string list" where
  "extractTags env cfg page =
     (if \<not> truthy (sel_tags (selectors cfg)) then Inr []
      else and_then (text_each env page (the (sel_tags (selectors cfg))))
             (\<lambda>texts. Inr (filter (\<lambda>tag. tag \<noteq> []) (map (trim env) texts))))"

definition extractImageUrl :: "collaborators \<Rightarrow> ScraperConfig \<Rightarrow> html \<Rightarrow> js_thrown + string option" where
  "extractImageUrl env cfg page =
     (if \<not> truthy (sel_imageUrl (selectors cfg)) then Inr None
      else and_then (attr_first env page (the (sel_imageUrl (selectors cfg))) ''src'')
             (\<lambda>imgSrc.
                if truthy imgSrc then
                  (if startsWith (the imgSrc) ''http'' then Inr imgSrc
                   else and_then (new_URL env (the imgSrc) (baseUrl cfg)) (\<lambda>u. Inr (Some u)))
                else Inr None))"

definition hasNextPage :: "collaborators \<Rightarrow> ScraperConfig \<Rightarrow> html \<Rightarrow> js_thrown + bool" where
  "hasNextPage env cfg page =
     (case pagination cfg of
        None \<Rightarrow> Inr False
      | Some p \<Rightarrow>
          (if \<not> truthy (nextPageSelector p) then Inr False
           else and_then (match_count env page (the (nextPageSelector p))) (\<lambda>n. Inr (0 < n))))"

subsection \<open>scrapeArticle\<close>

text \<open>
  The \<open>try\<close> block of \<open>scrapeArticle\<close>, as navigation number \<open>n\<close> of the run: \<open>Inr None\<close>
  is \<open>return null\<close>, \<open>Inl\<close> an exception on its way to the \<open>catch\<close>. The fields of the
  object literal are evaluated in the order they are written.
\<close>

definition scrapeArticle_try ::
  "collaborators \<Rightarrow> ScraperConfig \<Rightarrow> nat \<Rightarrow> string \<Rightarrow> js_thrown + NewsArticle option"
where
  "scrapeArticle_try env cfg n articleUrl =
     and_then (page_load env n articleUrl 15000 500) (\<lambda>page.
     and_then (extractText env page (Some (sel_title (selectors cfg)))) (\<lambda>title'.
       if \<not> truthy title' then Inr None
       else
         and_then (extractPublishedDate env cfg n page) (\<lambda>publishedAt'.
         and_then (extractText env page (sel_summary (selectors cfg))) (\<lambda>summary'.
         and_then (if truthy (sel_content (selectors cfg))
                   then extractText env page (sel_content (selectors cfg))
                   else Inr None) (\<lambda>content'.
         and_then (extractText env page (sel_author (selectors cfg))) (\<lambda>author'.
         and_then (extractText env page (sel_category (selectors cfg))) (\<lambda>category'.
         and_then (extractTags env cfg page) (\<lambda>tags'.
         and_then (extractImageUrl env cfg page) (\<lambda>imageUrl'.
           Inr (Some \<lparr> title = the title', url = articleUrl, summary = summary',
                       content = content', author = author', publishedAt = publishedAt',
                       source = name cfg, category = category', tags = Some tags',
                       imageUrl = imageUrl' \<rparr>))))))))))"

text \<open>
  \<open>scrapeArticle\<close>: the \<open>catch\<close> logs the exception to the console and returns \<open>null\<close>,
  so the function itself never throws.
\<close>

definition scrapeArticle ::
  "collaborators \<Rightarrow> ScraperConfig \<Rightarrow> nat \<Rightarrow> string \<Rightarrow> NewsArticle option"
where
  "scrapeArticle env cfg n articleUrl =
     (case scrapeArticle_try env cfg n articleUrl of Inl e \<Rightarrow> None | Inr article \<Rightarrow> article)"

subsection \<open>scrapeArticles\<close>

text \<open>
  The loop \<open>for (const link of articleLinks)\<close>, the first link being navigation \<open>n\<close>.
  Its own \<open>catch\<close> only logs, and has nothing to catch since \<open>scrapeArticle\<close> does not
  throw.
\<close>

fun scrape_links ::
  "collaborators \<Rightarrow> ScraperConfig \<Rightarrow> nat \<Rightarrow> string list \<Rightarrow> NewsArticle list \<Rightarrow> NewsArticle list"
where
  "scrape_links env cfg n [] articles' = articles'"
| "scrape_links env cfg n (link # rest) articles' =
     scrape_links env cfg (Suc n) rest
       (case scrapeArticle env cfg n link of
          None \<Rightarrow> articles'
        | Some article \<Rightarrow> articles' @ [article])"

text \<open>
  How \<open>scrapeArticles\<close> ends: it returns its local array \<open>articles\<close>, or an exception
  leaves it. In the second case the array as it stood is kept here beside the
  exception, to say what had been collected; the caller receives the exception only.
\<close>

datatype pages_end = Returned "NewsArticle list" | Threw js_thrown "NewsArticle list"

fun collected :: "pages_end \<Rightarrow> NewsArticle list" where
  "collected (Returned as) = as"
| "collected (Threw e as) = as"

definition pagination_enabled :: "ScraperConfig \<Rightarrow> bool" where
  "pagination_enabled cfg = (case pagination cfg of None \<Rightarrow> False | Some p \<Rightarrow> enabled p)"

text \<open>\<open>this.config.pagination?.maxPages || 1\<close>.\<close>

definition max_pages :: "ScraperConfig \<Rightarrow> int" where
  "max_pages cfg = num_or (case pagination cfg of None \<Rightarrow> None | Some p \<Rightarrow> maxPages p) 1"

text \<open>
  The loop \<open>while (currentPage <= maxPages)\<close>, entered at \<open>currentPage\<close> after \<open>n\<close>
  navigations with the array \<open>articles\<close> as given.
\<close>

function page_loop ::
  "collaborators \<Rightarrow> BaseScraper \<Rightarrow> int \<Rightarrow> nat \<Rightarrow> NewsArticle list \<Rightarrow> pages_end"
where
  "page_loop env self currentPage n articles' =
     (if currentPage \<le> max_pages (config self) then
        (case page_load env n (getPageUrl self currentPage) 30000 (num_or (delay (config self)) 1000) of
           Inl e \<Rightarrow> Threw e articles'
         | Inr page \<Rightarrow>
             (case extractArticleLinks env (config self) page of
                Inl e \<Rightarrow> Threw e articles'
              | Inr articleLinks \<Rightarrow>
                  (let articles'' = scrape_links env (config self) (Suc n) articleLinks articles';
                       n' = Suc n + length articleLinks
                   in case (if pagination_enabled (config self) \<and> currentPage < max_pages (config self)
                            then hasNextPage env (config self) page else Inr True) of
                        Inl e \<Rightarrow> Threw e articles''
                      | Inr False \<Rightarrow> Returned articles''
                      | Inr True \<Rightarrow>
                          (case (if currentPage + 1 \<le> max_pages (config self)
                                 then page_wait env n' (num_or (delay (config self)) 2000)
                                 else None) of
                             Some e \<Rightarrow> Threw e articles''
                           | None \<Rightarrow> page_loop env self (currentPage + 1) n' articles''))))
      else Returned articles')"
  by pat_completeness auto
termination
  by (relation "measure (\<lambda>(env, self, currentPage, n, articles').
        nat (max_pages (config self) + 1 - currentPage))") auto

declare page_loop.simps [simp del]

text \<open>
  \<open>scrapeArticles\<close>, given whether \<open>this.browser\<close> is set. \<open>page.close()\<close> runs in the
  \<open>finally\<close>; an exception of it replaces whatever the loop ended with.
\<close>

definition scrapeArticles :: "collaborators \<Rightarrow> BaseScraper \<Rightarrow> bool \<Rightarrow> pages_end" where
  "scrapeArticles env self browser =
     (if \<not> browser then Threw (JsError ''Browser not initialized'') []
      else
        (case browser_newPage env of
           Some e \<Rightarrow> Threw e []
         | None \<Rightarrow>
             (let ended = page_loop env self 1 0 []
              in case page_close env of
                   None \<Rightarrow> ended
                 | Some e \<Rightarrow> Threw e (collected ended))))"

subsection \<open>scrape\<close>

text \<open>\<open>error instanceof Error ? error.message : 'Unknown error'\<close>.\<close>

fun error_message :: "js_thrown \<Rightarrow> string" where
  "error_message (JsError m) = m"
| "error_message NonError = ''Unknown error''"

text \<open>
  \<open>scrape()\<close>, given whether \<open>this.browser\<close> is set when it is called; it returns what
  the promise settles to and whether \<open>this.browser\<close> is set afterwards. The \<open>try\<close>
  covers \<open>initialize\<close> and \<open>scrapeArticles\<close>; \<open>articles\<close> is assigned only when
  \<open>scrapeArticles\<close> returns; the \<open>catch\<close> pushes one message; \<open>cleanup\<close> runs in the
  \<open>finally\<close>, closes the browser when one is set, and an exception of it rejects the
  promise.
\<close>

definition scrape ::
  "collaborators \<Rightarrow> BaseScraper \<Rightarrow> bool \<Rightarrow> (js_thrown + ScraperResult) \<times> bool"
where
  "scrape env self browser =
     (let (browser', ended) =
            (case puppeteer_launch env of
               Some e \<Rightarrow> (browser, Threw e [])
             | None \<Rightarrow> (True, scrapeArticles env self True));
          (articles', errors') =
            (case ended of
               Returned as \<Rightarrow> (as, [])
             | Threw e as \<Rightarrow>
                 ([], [''Failed to scrape '' @ name (config self) @ '': '' @ error_message e]))
      in if browser' then
           (case browser_close env of
              Some e \<Rightarrow> (Inl e, True)
            | None \<Rightarrow>
                (Inr \<lparr> articles = articles', totalScraped = int (length articles'),
                       errors = errors', executionTime = clock_end env - clock_start env \<rparr>,
                 False))
         else
           (Inr \<lparr> articles = articles', totalScraped = int (length articles'),
                  errors = errors', executionTime = clock_end env - clock_start env \<rparr>,
            False))"

text \<open>
  A \<open>BaseScraper\<close> instance as the collector sees it. \<open>envs k\<close> is what the libraries
  do during the \<open>k\<close>-th call of \<open>scrape()\<close>; \<open>this.browser\<close> starts as \<open>null\<close> and is
  carried from one call to the next.
\<close>

fun browser_after :: "(nat \<Rightarrow> collaborators) \<Rightarrow> BaseScraper \<Rightarrow> nat \<Rightarrow> bool" where
  "browser_after envs self 0 = False"
| "browser_after envs self (Suc k) = snd (scrape (envs (Suc k)) self (browser_after envs self k))"

definition instance_of :: "BaseScraper \<Rightarrow> (nat \<Rightarrow> collaborators) \<Rightarrow> scraper" where
  "instance_of self envs attempt =
     fst (scrape (envs (nat attempt)) self (browser_after envs self (nat attempt - 1)))"

subsection \<open>Absolute URLs\<close>

text \<open>
  The specification speaks of absolute URLs and relative links, where the code tests
  \<open>href.startsWith('http')\<close>. This is the specification's notion, for comparison with
  the code's test: a URL is absolute when it starts with a scheme, that is a letter,
  then letters, digits, \<open>+\<close>, \<open>-\<close> or \<open>.\<close>, then a colon.
\<close>

definition letters :: string where
  "letters = ''abcdefghijklmnopqrstuvwxyzABCDEFGHIJKLMNOPQRSTUVWXYZ''"

definition scheme_chars :: string where
  "scheme_chars = letters @ ''0123456789+-.''"

definition is_absolute_url :: "string \<Rightarrow> bool" where
  "is_absolute_url s =
     (case s of
        [] \<Rightarrow> False
      | c # cs \<Rightarrow>
          c \<in> set letters \<and>
          (case dropWhile (\<lambda>d. d \<in> set scheme_chars) cs of
             [] \<Rightarrow> False
           | d # rest \<Rightarrow> d = CHR '':''))"

text \<open>
  Where a link \<open>u\<close> returned by \<open>extractArticleLinks\<close> can come from: a non-empty
  \<open>href\<close> of the listing page, taken as it is when it starts with \<open>http\<close> and passed
  through \<open>new URL(href, baseUrl).href\<close> otherwise.
\<close>

definition link_of :: "collaborators \<Rightarrow> ScraperConfig \<Rightarrow> string option list \<Rightarrow> string \<Rightarrow> bool" where
  "link_of env cfg hrefs u \<longleftrightarrow>
     (\<exists>h. Some h \<in> set hrefs \<and> h \<noteq> [] \<and>
        (if startsWith h ''http'' then u = h else new_URL env h (baseUrl cfg) = Inr u))"

section \<open>Concrete inputs\<close>

text \<open>The collector built with no options, as \<open>new NewsCollector(scrapers)\<close> does.\<close>

definition no_options :: NewsCollectorOptions where
  "no_options = \<lparr> opt_outputDir = None, opt_maxConcurrent = None, opt_retryAttempts = None,
     opt_delayBetweenRequests = None, opt_includeContent = None \<rparr>"

definition default_options :: RequiredOptions where
  "default_options = constructor no_options"

definition empty_result :: ScraperResult where
  "empty_result = \<lparr> articles = [], totalScraped = 0, errors = [], executionTime = 1500 \<rparr>"

text \<open>A scraper whose \<open>scrape()\<close> rejects twice and then resolves.\<close>

definition flaky :: scraper where
  "flaky attempt = (if attempt < 3 then Inl (JsError ''Target closed'') else Inr empty_result)"

text \<open>
  A scraper whose \<open>scrape()\<close> rejects on every call: with a closed target on the first
  two calls, and with the thrown value \<open>e\<close> from the third call on.
\<close>

definition rejects_last_with :: "js_thrown \<Rightarrow> scraper" where
  "rejects_last_with e attempt = (if attempt < 3 then Inl (JsError ''Target closed'') else Inl e)"

text \<open>A scraper whose first \<open>scrape()\<close> resolves with \<open>n\<close> articles and no error.\<close>

definition placeholder_article :: NewsArticle where
  "placeholder_article =
     \<lparr> title = ''Placeholder'', url = ''https://example.com/placeholder'', summary = None,
       content = None, author = None, publishedAt = 0, source = ''New Source'',
       category = None, tags = Some [], imageUrl = None \<rparr>"

definition result_with :: "nat \<Rightarrow> ScraperResult" where
  "result_with n = \<lparr> articles = replicate n placeholder_article, totalScraped = int n,
                      errors = [], executionTime = 1500 \<rparr>"

definition succeeds_with :: "nat \<Rightarrow> scraper" where
  "succeeds_with n attempt = Inr (result_with n)"

text \<open>Four scrapers that resolve at once with 2, 0, 5 and 1 articles.\<close>

definition four_scrapers :: "scraper list" where
  "four_scrapers = [succeeds_with 2, succeeds_with 0, succeeds_with 5, succeeds_with 1]"

text \<open>A file system that accepts every write, and a run of twelve seconds.\<close>

definition quiet_env :: collector_env where
  "quiet_env = \<lparr> ensureOutputDirectory = None, saveResults = None,
                  startTime = 1700000000000, endTime = 1700000012000 \<rparr>"

text \<open>
  A scraper class in the manner of the README's \<open>NewSourceScraper\<close>, with one listing
  page, and the same with two listing pages and a next-page selector.
\<close>

definition new_source_config :: ScraperConfig where
  "new_source_config =
     \<lparr> name = ''New Source'', baseUrl = ''https://example.com'',
       selectors = \<lparr> sel_articleLinks = ''a.article-link'', sel_title = ''h1.title'',
                     sel_summary = None, sel_content = None, sel_author = None,
                     sel_publishedAt = None, sel_category = None, sel_tags = None,
                     sel_imageUrl = None \<rparr>,
       pagination = None, delay = Some 2000 \<rparr>"

definition new_source_getPageUrl :: "int \<Rightarrow> string" where
  "new_source_getPageUrl pageNumber =
     (if pageNumber = 1 then ''https://example.com/news'' else ''https://example.com/news?page=2'')"

definition new_source :: BaseScraper where
  "new_source = \<lparr> config = new_source_config, getPageUrl = new_source_getPageUrl \<rparr>"


text \<open>Removal of leading and trailing spaces, which is what \<open>trim\<close> does on the texts below.\<close>

definition strip_spaces :: "string \<Rightarrow> string" where
  "strip_spaces s = rev (dropWhile (\<lambda>c. c = CHR '' '') (rev (dropWhile (\<lambda>c. c = CHR '' '') s)))"

text \<open>
  A small site. Its first listing page carries the links \<open>hrefs\<close> and a next-page
  link; its second listing page times out. The article at \<open>/broken\<close> resets the
  connection, the article at \<open>/untitled\<close> has a blank headline, and every other
  article page loads and has a headline. The HTML of a page is stood for by a short
  string: \<open>listing\<close> for the listing page and the URL itself for an article page.
  Relative links of this site start with a slash, where resolution against the base
  is concatenation.
\<close>

definition site :: "string option list \<Rightarrow> collaborators" where
  "site hrefs =
     \<lparr> puppeteer_launch = None, browser_close = None, browser_newPage = None,
       page_load = (\<lambda>n u timeout settle.
          if u = ''https://example.com/news'' then Inr ''listing''
          else if u = ''https://example.com/news?page=2''
            then Inl (JsError ''Navigation timeout of 30000 ms exceeded'')
          else if u = ''https://example.com/broken''
            then Inl (JsError ''net::ERR_CONNECTION_RESET'')
          else Inr u),
       page_wait = (\<lambda>n ms. None),
       page_close = None,
       attr_each = (\<lambda>page sel a.
          Inr (if page = ''listing'' \<and> sel = ''a.article-link'' \<and> a = ''href'' then hrefs else [])),
       attr_first = (\<lambda>page sel a. Inr None),
       text_first = (\<lambda>page sel.
          Inr (if sel = ''h1.title''
               then (if page = ''https://example.com/untitled'' then ''  ''
                     else '' Story '' @ drop 19 page)
               else [])),
       text_each = (\<lambda>page sel. Inr []),
       match_count = (\<lambda>page sel. Inr (if page = ''listing'' \<and> sel = ''a.next'' then 1 else 0)),
       trim = strip_spaces,
       new_URL = (\<lambda>href base. Inr (base @ href)),
       Date_parse = (\<lambda>text. None),
       Date_now = (\<lambda>n. 1700000000000),
       clock_start = 1700000000000,
       clock_end = 1700000009000 \<rparr>"


text \<open>The same machine with no browser to launch.\<close>

definition no_browser :: collaborators where
  "no_browser = (site [])\<lparr> puppeteer_launch := Some (JsError ''Failed to launch the browser process!'') \<rparr>"






section \<open>The retry wrapper\<close>

lemma failed_attempts_empty: "b < a \<Longrightarrow> failed_attempts a b = []"
  by (simp add: failed_attempts_def)

lemma failed_attempts_step:
  "a \<le> b \<Longrightarrow> failed_attempts a b = Attempt a # Backoff (a * 2000) # failed_attempts (a + 1) b"
  by (simp add: failed_attempts_def upto_rec1)

lemma attempts_of_append: "attempts_of (xs @ ys) = attempts_of xs @ attempts_of ys"
  by (induction xs rule: attempts_of.induct) auto

lemma backoffs_of_append: "backoffs_of (xs @ ys) = backoffs_of xs @ backoffs_of ys"
  by (induction xs rule: backoffs_of.induct) auto

lemma attempts_of_failed: "attempts_of (failed_attempts a b) = [a..b]"
proof (induction "nat (b + 1 - a)" arbitrary: a)
  case 0
  then show ?case by (simp add: failed_attempts_empty)
next
  case (Suc n)
  then have "a \<le> b" by simp
  moreover have "n = nat (b + 1 - (a + 1))" using Suc.hyps(2) by simp
  ultimately show ?case using Suc.hyps(1) [of "a + 1"]
    by (simp add: failed_attempts_step upto_rec1 [of a b])
qed

lemma backoffs_of_failed: "backoffs_of (failed_attempts a b) = map (\<lambda>i. i * 2000) [a..b]"
proof (induction "nat (b + 1 - a)" arbitrary: a)
  case 0
  then show ?case by (simp add: failed_attempts_empty)
next
  case (Suc n)
  then have "a \<le> b" by simp
  moreover have "n = nat (b + 1 - (a + 1))" using Suc.hyps(2) by simp
  ultimately show ?case using Suc.hyps(1) [of "a + 1"]
    by (simp add: failed_attempts_step upto_rec1 [of a b])
qed

lemma sum_list_backoffs: "sum_list (map (\<lambda>i. i * 2000) [a..b]) = 2000 * (\<Sum>i = a..b. i)"
proof -
  have "sum_list (map (\<lambda>i. i * 2000) [a..b]) = (\<Sum>i\<in>set [a..b]. i * 2000)"
    by (rule sum_list_distinct_conv_sum_set) simp
  also have "\<dots> = 2000 * (\<Sum>i = a..b. i)"
    by (simp add: sum_distrib_right mult.commute)
  finally show ?thesis .
qed

text \<open>
  Entered at attempt \<open>a\<close>, with the attempts \<open>a, ..., k - 1\<close> rejecting and attempt \<open>k\<close>
  resolving, the loop returns what attempt \<open>k\<close> resolved to.
\<close>

lemma retry_loop_success:
  assumes "a \<le> k" and "k \<le> retryAttempts options"
    and "\<forall>i. a \<le> i \<and> i < k \<longrightarrow> isl (scraper i)" and "scraper k = Inr r"
  shows "retry_loop options scraper a lastError evs =
           \<lparr> outcome = r, events = evs @ failed_attempts a (k - 1) @ [Attempt k] \<rparr>"
  using assms
proof (induction "nat (k - a)" arbitrary: a lastError evs)
  case 0
  then have "a = k" by simp
  with 0 show ?case
    by (subst retry_loop.simps) (simp add: failed_attempts_empty)
next
  case (Suc n)
  then have lt: "a < k" by simp
  with Suc.prems obtain e where e: "scraper a = Inl e"
    by (cases "scraper a") auto
  have n: "n = nat (k - (a + 1))" using Suc.hyps(2) by simp
  have le: "a + 1 \<le> k" using lt by simp
  have rest: "\<forall>i. a + 1 \<le> i \<and> i < k \<longrightarrow> isl (scraper i)"
    using Suc.prems(3) by simp
  have "retry_loop options scraper a lastError evs =
          retry_loop options scraper (a + 1) (Some (as_Error e))
            (evs @ [Attempt a, Backoff (a * 2000)])"
    using lt Suc.prems(2) e by (subst retry_loop.simps) simp
  also have "\<dots> = \<lparr> outcome = r,
      events = (evs @ [Attempt a, Backoff (a * 2000)]) @ failed_attempts (a + 1) (k - 1) @ [Attempt k] \<rparr>"
    using Suc.hyps(1) [OF n le Suc.prems(2) rest Suc.prems(4)] by simp
  finally show ?case using lt by (simp add: failed_attempts_step [of a "k - 1"])
qed

text \<open>Entered at attempt \<open>a\<close> with every remaining attempt rejecting, the loop runs out.\<close>

lemma retry_loop_exhausted:
  assumes "a \<le> retryAttempts options + 1"
    and "\<forall>i. a \<le> i \<and> i \<le> retryAttempts options \<longrightarrow> isl (scraper i)"
  shows "retry_loop options scraper a lastError evs =
           \<lparr> outcome = \<lparr> articles = [], totalScraped = 0,
                 errors = [final_message (if a \<le> retryAttempts options
                                          then Some (as_Error (projl (scraper (retryAttempts options))))
                                          else lastError)],
                 executionTime = 0 \<rparr>,
             events = evs @ failed_attempts a (retryAttempts options - 1)
                        @ (if a \<le> retryAttempts options then [Attempt (retryAttempts options)] else []) \<rparr>"
  using assms
proof (induction "nat (retryAttempts options + 1 - a)" arbitrary: a lastError evs)
  case 0
  then have "retryAttempts options < a" by simp
  then show ?case
    by (subst retry_loop.simps) (simp add: failed_attempts_empty)
next
  case (Suc n)
  then have le: "a \<le> retryAttempts options" by simp
  with Suc.prems obtain e where e: "scraper a = Inl e"
    by (cases "scraper a") auto
  have n: "n = nat (retryAttempts options + 1 - (a + 1))" using Suc.hyps(2) by simp
  have le1: "a + 1 \<le> retryAttempts options + 1" using le by simp
  have rest: "\<forall>i. a + 1 \<le> i \<and> i \<le> retryAttempts options \<longrightarrow> isl (scraper i)"
    using Suc.prems(2) by simp
  note IH = Suc.hyps(1) [OF n le1 rest]
  show ?case
  proof (cases "a < retryAttempts options")
    case True
    have "retry_loop options scraper a lastError evs =
            retry_loop options scraper (a + 1) (Some (as_Error e))
              (evs @ [Attempt a, Backoff (a * 2000)])"
      using True e by (subst retry_loop.simps) simp
    then show ?thesis using True
      by (simp add: IH failed_attempts_step [of a "retryAttempts options - 1"])
  next
    case False
    with le have eq: "a = retryAttempts options" by simp
    have "retry_loop options scraper a lastError evs =
            retry_loop options scraper (a + 1) (Some (as_Error e)) (evs @ [Attempt a])"
      using eq e by (subst retry_loop.simps) simp
    also have "\<dots> = \<lparr> outcome = \<lparr> articles = [], totalScraped = 0,
                 errors = [final_message (Some (as_Error e))], executionTime = 0 \<rparr>,
             events = evs @ [Attempt a] \<rparr>"
      using eq by (subst retry_loop.simps) simp
    finally show ?thesis using eq e
      by (simp add: failed_attempts_empty)
  qed
qed

lemma default_retryAttempts: "retryAttempts default_options = 3"
  by (simp add: default_options_def no_options_def constructor_def num_or_def)

lemma upto_1_2: "[1..(2::int)] = [1, 2]"
  by (simp add: upto.simps)

lemma upto_1_3: "[1..(3::int)] = [1, 2, 3]"
  by (simp add: upto.simps)

text \<open>
  C3. When \<open>scrape()\<close> rejects on the attempts \<open>1, ..., k - 1\<close> and resolves on attempt
  \<open>k \<le> retryAttempts\<close>, \<open>runScraperWithRetry\<close> returns what attempt \<open>k\<close> resolved to.
  Its events are attempt \<open>i\<close> followed by a wait of \<open>i * 2000\<close> ms for each
  \<open>i < k\<close>, then attempt \<open>k\<close>: the wait before re-attempt \<open>i + 1\<close> is \<open>i * 2000\<close> ms,
  linear in \<open>i\<close>, and the waits add up to \<open>2000 * (1 + 2 + ... + (k - 1))\<close> ms.
\<close>

theorem retry_succeeds_on_attempt_k:
  assumes "1 \<le> k" and "k \<le> retryAttempts options"
    and "\<forall>i\<in>{1..<k}. isl (scraper i)" and "scraper k = Inr r"
  shows "outcome (runScraperWithRetry options scraper) = r
       \<and> events (runScraperWithRetry options scraper) = failed_attempts 1 (k - 1) @ [Attempt k]
       \<and> backoffs_of (events (runScraperWithRetry options scraper)) = map (\<lambda>i. i * 2000) [1..k - 1]
       \<and> sum_list (backoffs_of (events (runScraperWithRetry options scraper)))
           = 2000 * (\<Sum>i = 1..k - 1. i)"
proof -
  have fails: "\<forall>i. 1 \<le> i \<and> i < k \<longrightarrow> isl (scraper i)" using assms(3) by simp
  have run: "runScraperWithRetry options scraper =
      \<lparr> outcome = r, events = [] @ failed_attempts 1 (k - 1) @ [Attempt k] \<rparr>"
    unfolding runScraperWithRetry_def
    by (rule retry_loop_success [OF assms(1) assms(2) fails assms(4)])
  show ?thesis
    by (simp add: run backoffs_of_append backoffs_of_failed sum_list_backoffs)
qed

theorem retry_succeeds_on_attempt_k_witness:
  "(1::int) \<le> 3 \<and> 3 \<le> retryAttempts default_options
   \<and> isl (flaky 1) \<and> isl (flaky 2) \<and> flaky 3 = Inr empty_result
   \<and> outcome (runScraperWithRetry default_options flaky) = empty_result
   \<and> events (runScraperWithRetry default_options flaky)
       = [Attempt 1, Backoff 2000, Attempt 2, Backoff 4000, Attempt 3]
   \<and> sum_list (backoffs_of (events (runScraperWithRetry default_options flaky))) = 6000"
proof -
  have one: "(1::int) \<le> 3" by simp
  have k: "3 \<le> retryAttempts default_options" by (simp add: default_retryAttempts)
  have fails: "\<forall>i\<in>{1..<3}. isl (flaky i)" by (simp add: flaky_def)
  have first: "isl (flaky 1) \<and> isl (flaky 2)" by (simp add: flaky_def)
  have ok: "flaky 3 = Inr empty_result" by (simp add: flaky_def)
  have "{1..2::int} = set [1..2]" by simp
  then have total: "(\<Sum>i = 1..2::int. i) = 3" by (simp only: upto_1_2) simp
  show ?thesis
    using retry_succeeds_on_attempt_k [OF one k fails ok] k ok first
    by (simp add: failed_attempts_def upto_1_2 total)
qed

text \<open>
  C4. When \<open>scrape()\<close> rejects on every attempt and \<open>retryAttempts = N\<close>, the attempts
  made are exactly \<open>1, ..., N\<close> (none for \<open>N < 1\<close>, and never an attempt \<open>N + 1\<close>), and
  the outcome has no article, elapsed time \<open>0\<close> and exactly one error message. That
  message is the message of the \<open>Error\<close> that attempt \<open>N\<close> rejected with when it is not
  empty, and the text \<open>Unknown error\<close> in the three other cases: the \<open>Error\<close> has an
  empty message, the rejected value is not an \<open>Error\<close>, or no attempt was made.
\<close>

theorem retry_exhausted_after_N_attempts:
  assumes "retryAttempts options = N" and "\<forall>i\<in>{1..N}. isl (scraper i)"
  shows "attempts_of (events (runScraperWithRetry options scraper)) = [1..N]
       \<and> outcome (runScraperWithRetry options scraper) =
           \<lparr> articles = [], totalScraped = 0,
             errors = [if 1 \<le> N
                       then (case projl (scraper N) of
                               JsError m \<Rightarrow> if m = [] then ''Unknown error'' else m
                             | NonError \<Rightarrow> ''Unknown error'')
                       else ''Unknown error''],
             executionTime = 0 \<rparr>"
proof (cases "1 \<le> N")
  case True
  have fails: "\<forall>i. 1 \<le> i \<and> i \<le> retryAttempts options \<longrightarrow> isl (scraper i)"
    using assms by simp
  have start: "1 \<le> retryAttempts options + 1" using True assms(1) by simp
  have split: "[1..N] = [1..N - 1] @ [N]"
    using True upto_rec2 [of 1 N] by simp
  have message: "final_message (Some (as_Error e)) =
      (case e of JsError m \<Rightarrow> if m = [] then ''Unknown error'' else m
               | NonError \<Rightarrow> ''Unknown error'')" for e
    by (cases e) (simp_all add: final_message_def str_or_def)
  show ?thesis
    unfolding runScraperWithRetry_def retry_loop_exhausted [OF start fails]
    using True assms(1) split
    by (simp add: attempts_of_append attempts_of_failed message)
next
  case False
  then have "\<not> 1 \<le> retryAttempts options" using assms(1) by simp
  then show ?thesis
    using False unfolding runScraperWithRetry_def
    by (subst retry_loop.simps, subst retry_loop.simps)
       (simp add: final_message_def str_or_def)
qed

theorem retry_exhausted_after_N_attempts_witness:
  "retryAttempts default_options = 3
   \<and> isl (rejects_last_with (JsError ''Protocol error: Connection closed.'') 1)
   \<and> isl (rejects_last_with (JsError ''Protocol error: Connection closed.'') 2)
   \<and> isl (rejects_last_with (JsError ''Protocol error: Connection closed.'') 3)
   \<and> isl (rejects_last_with (JsError []) 1) \<and> isl (rejects_last_with (JsError []) 2)
   \<and> isl (rejects_last_with (JsError []) 3)
   \<and> isl (rejects_last_with NonError 1) \<and> isl (rejects_last_with NonError 2)
   \<and> isl (rejects_last_with NonError 3)
   \<and> attempts_of (events (runScraperWithRetry default_options
         (rejects_last_with (JsError ''Protocol error: Connection closed.'')))) = [1, 2, 3]
   \<and> outcome (runScraperWithRetry default_options
         (rejects_last_with (JsError ''Protocol error: Connection closed.''))) =
       \<lparr> articles = [], totalScraped = 0,
         errors = [''Protocol error: Connection closed.''], executionTime = 0 \<rparr>
   \<and> attempts_of (events (runScraperWithRetry default_options
         (rejects_last_with (JsError [])))) = [1, 2, 3]
   \<and> outcome (runScraperWithRetry default_options (rejects_last_with (JsError []))) =
       \<lparr> articles = [], totalScraped = 0, errors = [''Unknown error''], executionTime = 0 \<rparr>
   \<and> attempts_of (events (runScraperWithRetry default_options
         (rejects_last_with NonError))) = [1, 2, 3]
   \<and> outcome (runScraperWithRetry default_options (rejects_last_with NonError)) =
       \<lparr> articles = [], totalScraped = 0, errors = [''Unknown error''], executionTime = 0 \<rparr>"
proof -
  have fails: "\<forall>i\<in>{1..3}. isl (rejects_last_with x i)" for x
    by (simp add: rejects_last_with_def)
  have each: "isl (rejects_last_with x 1) \<and> isl (rejects_last_with x 2) \<and> isl (rejects_last_with x 3)" for x
    by (simp add: rejects_last_with_def)
  have last: "rejects_last_with x 3 = Inl x" for x
    by (simp add: rejects_last_with_def)
  show ?thesis
    using retry_exhausted_after_N_attempts [OF default_retryAttempts fails,
        of "JsError ''Protocol error: Connection closed.''"]
      retry_exhausted_after_N_attempts [OF default_retryAttempts fails, of "JsError []"]
      retry_exhausted_after_N_attempts [OF default_retryAttempts fails, of NonError]
      each
    by (simp add: default_retryAttempts upto_1_3 last)
qed

text \<open>
  C10. An option given as \<open>0\<close> (or the output directory given as the empty string) is
  falsy and is replaced by the default, as if it were absent: \<open>maxConcurrent = 0\<close>
  gives \<open>3\<close>, \<open>retryAttempts = 0\<close> gives \<open>3\<close>, \<open>delayBetweenRequests = 0\<close> gives \<open>1000\<close>
  and the empty \<open>outputDir\<close> gives \<open>./data\<close>; \<open>includeContent = false\<close> stays \<open>false\<close>.
  With \<open>retryAttempts = 0\<close> a scraper that always rejects is attempted three times,
  and any scraper at least once and at most three times.
\<close>

theorem constructor_falsy_options_take_defaults:
  "constructor (options\<lparr> opt_maxConcurrent := Some 0 \<rparr>)
     = constructor (options\<lparr> opt_maxConcurrent := None \<rparr>)
   \<and> maxConcurrent (constructor (options\<lparr> opt_maxConcurrent := Some 0 \<rparr>)) = 3
   \<and> constructor (options\<lparr> opt_retryAttempts := Some 0 \<rparr>)
     = constructor (options\<lparr> opt_retryAttempts := None \<rparr>)
   \<and> retryAttempts (constructor (options\<lparr> opt_retryAttempts := Some 0 \<rparr>)) = 3
   \<and> constructor (options\<lparr> opt_delayBetweenRequests := Some 0 \<rparr>)
     = constructor (options\<lparr> opt_delayBetweenRequests := None \<rparr>)
   \<and> delayBetweenRequests (constructor (options\<lparr> opt_delayBetweenRequests := Some 0 \<rparr>)) = 1000
   \<and> constructor (options\<lparr> opt_outputDir := Some [] \<rparr>)
     = constructor (options\<lparr> opt_outputDir := None \<rparr>)
   \<and> outputDir (constructor (options\<lparr> opt_outputDir := Some [] \<rparr>)) = ''./data''
   \<and> includeContent (constructor (options\<lparr> opt_includeContent := Some False \<rparr>)) = False
   \<and> attempts_of (events (runScraperWithRetry
         (constructor (options\<lparr> opt_retryAttempts := Some 0 \<rparr>)) (\<lambda>attempt. Inl e))) = [1, 2, 3]
   \<and> attempts_of (events (runScraperWithRetry
         (constructor (options\<lparr> opt_retryAttempts := Some 0 \<rparr>)) scraper))
       \<in> {[1], [1, 2], [1, 2, 3]}"
proof -
  let ?o = "constructor (options\<lparr> opt_retryAttempts := Some 0 \<rparr>)"
  have r: "retryAttempts ?o = 3"
    by (simp add: constructor_def num_or_def)
  have always: "attempts_of (events (runScraperWithRetry ?o (\<lambda>attempt. Inl e))) = [1, 2, 3]"
    using retry_loop_exhausted [of 1 ?o "\<lambda>attempt. Inl e" None "[]"]
    by (simp add: r runScraperWithRetry_def attempts_of_append attempts_of_failed upto_1_2)
  have any: "attempts_of (events (runScraperWithRetry ?o scraper)) \<in> {[1], [1, 2], [1, 2, 3]}"
    unfolding runScraperWithRetry_def
    by (subst retry_loop.simps, subst retry_loop.simps, subst retry_loop.simps,
        subst retry_loop.simps) (simp add: r split: sum.split)
  show ?thesis
    using always any by (simp add: constructor_def num_or_def str_or_def bool_or_def)
qed

section \<open>Batches\<close>

lemma chunks_Nil: "chunks c [] = []"
  by (simp add: chunks.simps)

lemma chunks_step: "0 < c \<Longrightarrow> xs \<noteq> [] \<Longrightarrow> chunks c xs = take c xs # chunks c (drop c xs)"
  by (subst chunks.simps) simp

lemma ceiling_small:
  assumes "0 < n" and "n \<le> c"
  shows "\<lceil>real n / real c\<rceil> = 1"
proof (rule ceiling_unique)
  show "real_of_int 1 - 1 < real n / real c" using assms by simp
  show "real n / real c \<le> real_of_int 1" using assms by simp
qed

lemma ceiling_large:
  assumes "0 < c" and "c < n"
  shows "\<lceil>real n / real c\<rceil> = \<lceil>real (n - c) / real c\<rceil> + 1"
proof -
  have gen: "(x + y) / y = x / y + 1" if "y \<noteq> 0" for x y :: real
    using that by (simp add: add_divide_distrib)
  have "real n = real (n - c) + real c" using assms by simp
  then have "real n / real c = (real (n - c) + real c) / real c" by (rule arg_cong)
  also have "\<dots> = real (n - c) / real c + 1"
    using assms by (intro gen) simp
  finally show ?thesis by (simp only: ceiling_add_one)
qed

lemma length_chunks: "0 < c \<Longrightarrow> int (length (chunks c xs)) = \<lceil>real (length xs) / real c\<rceil>"
proof (induction "length xs" arbitrary: xs rule: less_induct)
  case less
  show ?case
  proof (cases "xs = []")
    case True
    then show ?thesis by (simp add: chunks_Nil)
  next
    case False
    then have shorter: "length (drop c xs) < length xs" using less.prems by simp
    have IH: "int (length (chunks c (drop c xs))) = \<lceil>real (length (drop c xs)) / real c\<rceil>"
      using less.hyps [OF shorter less.prems] .
    have step: "int (length (chunks c xs)) = int (length (chunks c (drop c xs))) + 1"
      using False less.prems by (simp add: chunks_step)
    show ?thesis
    proof (cases "length xs \<le> c")
      case True
      have "0 < length xs" using False by simp
      then have "\<lceil>real (length xs) / real c\<rceil> = 1" using True by (rule ceiling_small)
      moreover have "chunks c (drop c xs) = []" using True by (simp add: chunks_Nil)
      ultimately show ?thesis using step by simp
    next
      case False
      then have "c < length xs" by simp
      from ceiling_large [OF less.prems this]
      have "\<lceil>real (length xs) / real c\<rceil> = \<lceil>real (length (drop c xs)) / real c\<rceil> + 1"
        by simp
      then show ?thesis using step IH by linarith
    qed
  qed
qed

lemma concat_chunks: "0 < c \<Longrightarrow> concat (chunks c xs) = xs"
proof (induction "length xs" arbitrary: xs rule: less_induct)
  case less
  show ?case
  proof (cases "xs = []")
    case True
    then show ?thesis by (simp add: chunks_Nil)
  next
    case False
    then have "length (drop c xs) < length xs" using less.prems by simp
    then have "concat (chunks c (drop c xs)) = drop c xs"
      using less.hyps less.prems by blast
    then show ?thesis using False less.prems by (simp add: chunks_step)
  qed
qed

lemma chunks_bounds: "0 < c \<Longrightarrow> b \<in> set (chunks c xs) \<Longrightarrow> b \<noteq> [] \<and> length b \<le> c"
proof (induction "length xs" arbitrary: xs rule: less_induct)
  case less
  show ?case
  proof (cases "xs = []")
    case True
    then show ?thesis using less.prems by (simp add: chunks_Nil)
  next
    case False
    then have shorter: "length (drop c xs) < length xs" using less.prems by simp
    from less.prems False have "b = take c xs \<or> b \<in> set (chunks c (drop c xs))"
      by (simp add: chunks_step)
    then show ?thesis
    proof
      assume "b = take c xs"
      then show ?thesis using False less.prems by simp
    next
      assume "b \<in> set (chunks c (drop c xs))"
      then show ?thesis using less.hyps [OF shorter less.prems(1)] by blast
    qed
  qed
qed

lemma intersperse_Cons:
  "intersperse sep (x # xs) = x # (if xs = [] then [] else sep # intersperse sep xs)"
  by (cases xs) simp_all

lemma batches_of_intersperse:
  "batches_of (intersperse (Delay d) (map BatchRun bs)) = bs"
  by (induction bs) (simp_all add: intersperse_Cons)

lemma delays_of_intersperse:
  "delays_of (intersperse (Delay d) (map BatchRun bs)) = replicate (length bs - 1) d"
proof (induction bs)
  case Nil
  then show ?case by simp
next
  case (Cons b bs)
  then show ?case by (cases bs) (simp_all add: intersperse_Cons)
qed

lemma settle_results_fulfilled:
  "settle_results (map Fulfilled rs) st =
     st\<lparr> cur_results := cur_results st @ rs,
          cur_allArticles := cur_allArticles st @ concat (map articles rs),
          cur_totalErrors := cur_totalErrors st + (\<Sum>r\<leftarrow>rs. int (length (errors r))) \<rparr>"
  by (induction rs arbitrary: st) simp_all

lemma slice_batch:
  assumes "0 \<le> i" and "1 \<le> C"
  shows "slice xs i (i + C) = take (nat C) (drop (nat i) xs)"
proof -
  let ?len = "int (length xs)"
  consider "?len < i" | "i \<le> ?len" "i + C \<le> ?len" | "i \<le> ?len" "?len < i + C"
    by linarith
  then show ?thesis
  proof cases
    case 1
    then have "drop (nat i) xs = []" by simp
    then show ?thesis using 1 assms by (simp add: slice_def Let_def)
  next
    case 2
    then show ?thesis using assms by (simp add: slice_def Let_def)
  next
    case 3
    then have "length (drop (nat i) xs) \<le> nat C" "length (drop (nat i) xs) \<le> nat (?len - i)"
      using assms by simp_all
    then have "take (nat C) (drop (nat i) xs) = drop (nat i) xs"
      and "take (nat (?len - i)) (drop (nat i) xs) = drop (nat i) xs"
      by simp_all
    then show ?thesis using 3 assms by (simp add: slice_def Let_def)
  qed
qed

lemma after_runs_Nil: "after_runs options [] st = st"
  by (simp add: after_runs_def chunks_Nil)

lemma concat_map_take_drop:
  "concat (map f (take n xs)) @ concat (map f (drop n xs)) = concat (map f xs)"
proof -
  have "concat (map f (take n xs @ drop n xs)) = concat (map f xs)" by simp
  then show ?thesis by (simp only: map_append concat_append)
qed

lemma sum_list_take_drop:
  "(\<Sum>x\<leftarrow>take n xs. (f x :: int)) + (\<Sum>x\<leftarrow>drop n xs. f x) = (\<Sum>x\<leftarrow>xs. f x)"
proof -
  have "(\<Sum>x\<leftarrow>take n xs @ drop n xs. f x) = (\<Sum>x\<leftarrow>xs. f x)" by simp
  then show ?thesis by (simp only: map_append sum_list_append)
qed

lemma map_take_drop: "map f (take n xs) @ map f (drop n xs) = map f xs"
proof -
  have "map f (take n xs @ drop n xs) = map f xs" by simp
  then show ?thesis by (simp only: map_append)
qed

lemma settle_results_runs:
  "settle_results (map (\<lambda>run. Fulfilled (outcome run)) runs) s =
     s\<lparr> cur_results := cur_results s @ map outcome runs,
        cur_allArticles := cur_allArticles s @ concat (map (\<lambda>run. articles (outcome run)) runs),
        cur_totalErrors := cur_totalErrors s + (\<Sum>run\<leftarrow>runs. int (length (errors (outcome run)))) \<rparr>"
  using settle_results_fulfilled [of "map outcome runs" s]
  by (simp add: comp_def)

text \<open>One iteration of the batch loop followed by the remaining batches.\<close>

lemma after_runs_step:
  assumes "1 \<le> maxConcurrent options" and "runs \<noteq> []"
  shows "after_runs options (drop (nat (maxConcurrent options)) runs)
           ((if drop (nat (maxConcurrent options)) runs \<noteq> []
             then (\<lambda>s. s\<lparr> trace := trace s @ [Delay (delayBetweenRequests options)] \<rparr>)
             else (\<lambda>s. s))
            (settle_results (map (\<lambda>run. Fulfilled (outcome run)) (take (nat (maxConcurrent options)) runs))
              (st\<lparr> trace := trace st @ [BatchRun (take (nat (maxConcurrent options)) runs)] \<rparr>)))
         = after_runs options runs st"
proof -
  let ?c = "nat (maxConcurrent options)"
  have c: "0 < ?c" using assms(1) by simp
  have ch: "chunks ?c runs = take ?c runs # chunks ?c (drop ?c runs)"
    using c assms(2) by (rule chunks_step)
  have empty: "chunks ?c (drop ?c runs) = [] \<longleftrightarrow> drop ?c runs = []"
    using c by (subst chunks.simps) simp
  show ?thesis
  proof (cases "drop ?c runs = []")
    case True
    then have all: "take ?c runs = runs" by simp
    show ?thesis using True
      by (simp add: after_runs_def settle_results_runs ch chunks_Nil all)
  next
    case False
    then show ?thesis using empty
      by (simp add: after_runs_def settle_results_runs ch intersperse_Cons
            concat_map_take_drop sum_list_take_drop map_take_drop add.assoc)
  qed
qed

lemma batch_loop_closed:
  assumes "1 \<le> maxConcurrent options" and "0 \<le> i"
  shows "batch_loop options scrapers i st =
           Some (after_runs options (map (runScraperWithRetry options) (drop (nat i) scrapers)) st)"
  using assms(2)
proof (induction "length scrapers - nat i" arbitrary: i st rule: less_induct)
  case less
  let ?C = "maxConcurrent options"
  let ?R = "map (runScraperWithRetry options) (drop (nat i) scrapers)"
  show ?case
  proof (cases "i < int (length scrapers)")
    case False
    then have "drop (nat i) scrapers = []" by simp
    then show ?thesis using False
      by (subst batch_loop.simps) (simp add: after_runs_Nil)
  next
    case True
    then have R: "?R \<noteq> []" using less.prems by simp
    have closer: "length scrapers - nat (i + ?C) < length scrapers - nat i"
      using True less.prems assms(1) by linarith
    have next_ok: "0 \<le> i + ?C" using less.prems assms(1) by simp
    have dropdrop: "drop (nat (i + ?C)) scrapers = drop (nat ?C) (drop (nat i) scrapers)"
      using less.prems assms(1) by (simp add: nat_add_distrib add.commute)
    have more: "i + ?C < int (length scrapers) \<longleftrightarrow> drop (nat ?C) ?R \<noteq> []"
      using less.prems assms(1) by (simp add: drop_map) linarith
    have batch: "map (runScraperWithRetry options) (slice scrapers i (i + ?C)) = take (nat ?C) ?R"
      by (simp add: slice_batch [OF less.prems assms(1)] take_map)
    have IH: "batch_loop options scrapers (i + ?C) s =
               Some (after_runs options (drop (nat ?C) ?R) s)" for s
      using less.hyps [OF closer next_ok] dropdrop by (simp add: drop_map)
    show ?thesis
      using True
      apply (subst batch_loop.simps)
      apply (simp only: if_True Let_def batch IH)
      apply (cases "drop (nat ?C) ?R = []")
      using after_runs_step [OF assms(1) R, of st] more
       apply simp_all
      done
  qed
qed

lemma default_maxConcurrent: "maxConcurrent default_options = 3"
  by (simp add: default_options_def no_options_def constructor_def num_or_def)

lemma default_delayBetweenRequests: "delayBetweenRequests default_options = 1000"
  by (simp add: default_options_def no_options_def constructor_def num_or_def)


text \<open>
  C5, as amended. With \<open>maxConcurrent \<ge> 1\<close> the batch loop ends. The batches it ran
  are consecutive pieces of the scraper list, in order, each with at least one and at
  most \<open>maxConcurrent\<close> scrapers, and there are \<open>ceil(S / maxConcurrent)\<close> of them. The
  trace is batch, wait, batch, ..., batch: one wait of \<open>delayBetweenRequests\<close> between
  two neighbouring batches and none after the last. The waits add up to
  \<open>delayBetweenRequests * (ceil(S / maxConcurrent) - 1)\<close> when there is a scraper and to
  \<open>0\<close> when there is none.
\<close>

theorem batches_and_delays:
  assumes "1 \<le> maxConcurrent options"
  shows "\<exists>st. batch_loop options scrapers 0 initial_state = Some st
       \<and> concat (batches_of (trace st)) = map (runScraperWithRetry options) scrapers
       \<and> (\<forall>b\<in>set (batches_of (trace st)). b \<noteq> [] \<and> int (length b) \<le> maxConcurrent options)
       \<and> int (length (batches_of (trace st)))
           = \<lceil>real (length scrapers) / real_of_int (maxConcurrent options)\<rceil>
       \<and> trace st = intersperse (Delay (delayBetweenRequests options))
                       (map BatchRun (batches_of (trace st)))
       \<and> delays_of (trace st)
           = replicate (length (batches_of (trace st)) - 1) (delayBetweenRequests options)
       \<and> sum_list (delays_of (trace st))
           = (if scrapers = [] then 0
              else delayBetweenRequests options
                   * (\<lceil>real (length scrapers) / real_of_int (maxConcurrent options)\<rceil> - 1))"
proof -
  let ?c = "nat (maxConcurrent options)"
  let ?d = "delayBetweenRequests options"
  let ?R = "map (runScraperWithRetry options) scrapers"
  let ?st = "after_runs options ?R initial_state"
  have c: "0 < ?c" using assms by simp
  have rc: "real ?c = real_of_int (maxConcurrent options)" using assms by simp
  have run: "batch_loop options scrapers 0 initial_state = Some ?st"
    using batch_loop_closed [OF assms, of 0 scrapers initial_state] by simp
  have tr: "trace ?st = intersperse (Delay ?d) (map BatchRun (chunks ?c ?R))"
    by (simp add: after_runs_def initial_state_def)
  have bs: "batches_of (trace ?st) = chunks ?c ?R"
    by (simp add: tr batches_of_intersperse)
  have ds: "delays_of (trace ?st) = replicate (length (chunks ?c ?R) - 1) ?d"
    by (simp add: tr delays_of_intersperse)
  have count: "int (length (chunks ?c ?R)) = \<lceil>real (length scrapers) / real_of_int (maxConcurrent options)\<rceil>"
    using length_chunks [OF c, of ?R] by (simp add: rc)
  have bounds: "\<forall>b\<in>set (chunks ?c ?R). b \<noteq> [] \<and> int (length b) \<le> maxConcurrent options"
    using chunks_bounds [OF c] assms by fastforce
  have total: "sum_list (delays_of (trace ?st))
           = (if scrapers = [] then 0 else ?d * (\<lceil>real (length scrapers) / real_of_int (maxConcurrent options)\<rceil> - 1))"
  proof (cases "scrapers = []")
    case True
    then show ?thesis by (simp add: after_runs_Nil initial_state_def)
  next
    case False
    then have "chunks ?c ?R \<noteq> []" using c by (subst chunks.simps) simp
    then have "int (length (chunks ?c ?R) - 1) = int (length (chunks ?c ?R)) - 1"
      by (cases "chunks ?c ?R") simp_all
    then show ?thesis using False count
      by (simp add: ds sum_list_replicate)
  qed
  show ?thesis
    using run bs ds count bounds total concat_chunks [OF c, of ?R] tr
    by simp
qed

lemma length_four_scrapers: "length four_scrapers = 4"
  by (simp add: four_scrapers_def)

theorem batches_and_delays_witness:
  "1 \<le> maxConcurrent default_options
   \<and> batch_loop default_options four_scrapers 0 initial_state \<noteq> None
   \<and> length (batches_of (trace (the (batch_loop default_options four_scrapers 0 initial_state)))) = 2
   \<and> sum_list (delays_of (trace (the (batch_loop default_options four_scrapers 0 initial_state)))) = 1000"
proof -
  have c: "1 \<le> maxConcurrent default_options" by (simp add: default_maxConcurrent)
  have ne: "four_scrapers \<noteq> []" by (simp add: four_scrapers_def)
  have ceil: "\<lceil>real (length four_scrapers) / real_of_int (maxConcurrent default_options)\<rceil> = 2"
    by (simp add: length_four_scrapers default_maxConcurrent)
  from batches_and_delays [OF c, of four_scrapers]
  obtain st where "batch_loop default_options four_scrapers 0 initial_state = Some st"
    and "int (length (batches_of (trace st))) = 2"
    and "sum_list (delays_of (trace st)) = 1000"
    using ne by (auto simp add: ceil default_delayBetweenRequests)
  then show ?thesis using c by simp
qed

text \<open>
  C5 as stated fails for the empty scraper list: the loop runs no batch and waits
  \<open>0\<close> ms, while \<open>delayBetweenRequests * (ceil(0 / 3) - 1)\<close> is \<open>-1000\<close>.
\<close>

theorem no_scrapers_no_delay:
  "1 \<le> maxConcurrent default_options
   \<and> batch_loop default_options [] 0 initial_state = Some initial_state
   \<and> sum_list (delays_of (trace initial_state)) = 0
   \<and> delayBetweenRequests default_options
       * (\<lceil>real (length ([] :: scraper list)) / real_of_int (maxConcurrent default_options)\<rceil> - 1)
       = - 1000"
  by (subst batch_loop.simps)
     (simp add: default_maxConcurrent default_delayBetweenRequests initial_state_def)

text \<open>A run of the loop that returns while a scraper is left has \<open>maxConcurrent \<ge> 1\<close>.\<close>

lemma batch_loop_returns:
  assumes "batch_loop options scrapers i st = Some st'"
  shows "i < int (length scrapers) \<longrightarrow> 1 \<le> maxConcurrent options"
proof (rule batch_loop.raw_induct
    [where P = "\<lambda>options scrapers i st st'. i < int (length scrapers) \<longrightarrow> 1 \<le> maxConcurrent options",
     OF _ assms], goal_cases)
  case (1 f options scrapers i st st')
  show ?case
  proof (intro impI, rule ccontr)
    assume more: "i < int (length scrapers)" and neg: "\<not> 1 \<le> maxConcurrent options"
    then have again: "i + maxConcurrent options < int (length scrapers)" by simp
    from 1(2) more obtain st2 where
      "f options scrapers (i + maxConcurrent options) st2 = Some st'"
      by (simp add: Let_def)
    then have "i + maxConcurrent options < int (length scrapers) \<longrightarrow> 1 \<le> maxConcurrent options"
      by (rule 1(1))
    with again neg show False by simp
  qed
qed

lemma int_length_concat: "int (length (concat (map f xs))) = (\<Sum>x\<leftarrow>xs. int (length (f x)))"
  by (induction xs) simp_all

lemma batch_loop_result:
  assumes "batch_loop options scrapers 0 initial_state = Some st"
  shows "st = after_runs options (map (runScraperWithRetry options) scrapers) initial_state"
proof (cases "scrapers = []")
  case True
  then show ?thesis using assms
    by (subst (asm) batch_loop.simps) (simp add: after_runs_Nil)
next
  case False
  then have "1 \<le> maxConcurrent options" using batch_loop_returns [OF assms] by simp
  then show ?thesis using batch_loop_closed [of options 0 scrapers initial_state] assms by simp
qed

text \<open>
  C6. With \<open>maxConcurrent \<ge> 1\<close> and a file system that takes the writes, \<open>collectAll\<close>
  returns a report. In every report that \<open>collectAll\<close> returns, \<open>results\<close> holds the
  outcome of each scraper in the order of the scraper list (which is batch order and,
  inside a batch, the order in which the tasks were created), \<open>allArticles\<close> is the
  concatenation of the article lists of \<open>results\<close> in that order, \<open>totalArticles\<close> is
  the sum of their lengths, and \<open>totalErrors\<close> is the sum of the error counts.
\<close>

theorem collectAll_aggregates:
  "(1 \<le> maxConcurrent options \<and> ensureOutputDirectory env = None \<and> saveResults env = None
      \<longrightarrow> (\<exists>report. collectAll env options scrapers = Some (Inr report)))
   \<and> (\<forall>report. collectAll env options scrapers = Some (Inr report) \<longrightarrow>
         results report = map (\<lambda>scraper. outcome (runScraperWithRetry options scraper)) scrapers
       \<and> allArticles report = concat (map articles (results report))
       \<and> totalArticles report = (\<Sum>r\<leftarrow>results report. int (length (articles r)))
       \<and> totalErrors report = (\<Sum>r\<leftarrow>results report. int (length (errors r))))"
proof (intro conjI impI allI)
  assume "1 \<le> maxConcurrent options \<and> ensureOutputDirectory env = None \<and> saveResults env = None"
  then show "\<exists>report. collectAll env options scrapers = Some (Inr report)"
    using batch_loop_closed [of options 0 scrapers initial_state]
    by (simp add: collectAll_def)
next
  fix report
  assume ret: "collectAll env options scrapers = Some (Inr report)"
  then obtain st where st: "batch_loop options scrapers 0 initial_state = Some st"
    and rep: "report = \<lparr> allArticles = cur_allArticles st, results = cur_results st,
                totalArticles = int (length (cur_allArticles st)),
                totalErrors = cur_totalErrors st,
                report_executionTime = endTime env - startTime env \<rparr>"
    by (auto simp add: collectAll_def split: option.splits)
  have closed: "st = after_runs options (map (runScraperWithRetry options) scrapers) initial_state"
    using st by (rule batch_loop_result)
  show "results report = map (\<lambda>scraper. outcome (runScraperWithRetry options scraper)) scrapers"
    by (simp add: rep closed after_runs_def initial_state_def)
  show "allArticles report = concat (map articles (results report))"
    by (simp add: rep closed after_runs_def initial_state_def comp_def)
  show "totalArticles report = (\<Sum>r\<leftarrow>results report. int (length (articles r)))"
    by (simp add: rep closed after_runs_def initial_state_def comp_def int_length_concat)
  show "totalErrors report = (\<Sum>r\<leftarrow>results report. int (length (errors r)))"
    by (simp add: rep closed after_runs_def initial_state_def comp_def)
qed


lemma run_succeeds_with:
  "outcome (runScraperWithRetry default_options (succeeds_with n)) = result_with n"
  unfolding runScraperWithRetry_def
  by (subst retry_loop.simps) (simp add: default_retryAttempts succeeds_with_def)

theorem collectAll_aggregates_witness:
  "1 \<le> maxConcurrent default_options
   \<and> ensureOutputDirectory quiet_env = None \<and> saveResults quiet_env = None
   \<and> (\<exists>report. collectAll quiet_env default_options four_scrapers = Some (Inr report)
         \<and> map (\<lambda>r. length (articles r)) (results report) = [2, 0, 5, 1]
         \<and> totalArticles report = 8 \<and> totalErrors report = 0)"
proof -
  have hyps: "1 \<le> maxConcurrent default_options
      \<and> ensureOutputDirectory quiet_env = None \<and> saveResults quiet_env = None"
    by (simp add: default_maxConcurrent quiet_env_def)
  note agg = collectAll_aggregates [of default_options quiet_env four_scrapers]
  from agg hyps obtain report
    where ret: "collectAll quiet_env default_options four_scrapers = Some (Inr report)"
    by blast
  with agg have props:
    "results report = map (\<lambda>scraper. outcome (runScraperWithRetry default_options scraper)) four_scrapers"
    "totalArticles report = (\<Sum>r\<leftarrow>results report. int (length (articles r)))"
    "totalErrors report = (\<Sum>r\<leftarrow>results report. int (length (errors r)))"
    by blast+
  have res: "results report = [result_with 2, result_with 0, result_with 5, result_with 1]"
    by (simp add: props(1) four_scrapers_def run_succeeds_with)
  have "map (\<lambda>r. length (articles r)) (results report) = [2, 0, 5, 1]"
    and "totalArticles report = 8" and "totalErrors report = 0"
    by (simp_all add: props(2,3) res result_with_def)
  with ret hyps show ?thesis by (intro conjI exI [where x = report]) simp_all
qed

section \<open>The scraper\<close>

lemma and_then_Inl [simp]: "and_then (Inl e) f = Inl e"
  by (simp add: and_then_def)

lemma and_then_Inr [simp]: "and_then (Inr v) f = f v"
  by (simp add: and_then_def)






lemma scrapeArticle_untitled:
  assumes "page_load env n link 15000 500 = Inr page"
    and "extractText env page (Some (sel_title (selectors cfg))) = Inr t" and "\<not> truthy t"
  shows "scrapeArticle env cfg n link = None"
  using assms by (simp add: scrapeArticle_def scrapeArticle_try_def)





subsection \<open>The concrete site\<close>

lemma new_source_fields:
  "selectors (config new_source) = selectors new_source_config"
  "name (config new_source) = ''New Source''"
  "baseUrl (config new_source) = ''https://example.com''"
  "delay (config new_source) = Some 2000"
  "pagination (config new_source) = None"
  "getPageUrl new_source = new_source_getPageUrl"
  by (simp_all add: new_source_def new_source_config_def)


lemma new_source_selectors:
  "sel_articleLinks (selectors new_source_config) = ''a.article-link''"
  "sel_title (selectors new_source_config) = ''h1.title''"
  "sel_summary (selectors new_source_config) = None"
  "sel_content (selectors new_source_config) = None"
  "sel_author (selectors new_source_config) = None"
  "sel_publishedAt (selectors new_source_config) = None"
  "sel_category (selectors new_source_config) = None"
  "sel_tags (selectors new_source_config) = None"
  "sel_imageUrl (selectors new_source_config) = None"
  by (simp_all add: new_source_config_def)

lemma site_fields:
  "puppeteer_launch (site hrefs) = None"
  "browser_close (site hrefs) = None"
  "browser_newPage (site hrefs) = None"
  "page_close (site hrefs) = None"
  "page_wait (site hrefs) n ms = None"
  "trim (site hrefs) = strip_spaces"
  "new_URL (site hrefs) href base = Inr (base @ href)"
  "Date_now (site hrefs) n = 1700000000000"
  "clock_start (site hrefs) = 1700000000000"
  "clock_end (site hrefs) = 1700000009000"
  "text_each (site hrefs) page sel = Inr []"
  "attr_first (site hrefs) page sel a = Inr None"
  by (simp_all add: site_def)

lemma site_listing:
  "page_load (site hrefs) n ''https://example.com/news'' timeout settle = Inr ''listing''"
  "page_load (site hrefs) n ''https://example.com/news?page=2'' timeout settle
     = Inl (JsError ''Navigation timeout of 30000 ms exceeded'')"
  "attr_each (site hrefs) ''listing'' ''a.article-link'' ''href'' = Inr hrefs"
  "match_count (site hrefs) ''listing'' ''a.next'' = Inr 1"
  by (simp_all add: site_def)





lemma site_links:
  assumes "selectors cfg = selectors new_source_config" and "baseUrl cfg = ''https://example.com''"
  shows "extractArticleLinks (site [Some ''/story'']) cfg ''listing''
           = Inr [''https://example.com/story'']"
    and "extractArticleLinks (site [Some ''/story'', Some ''/story'']) cfg ''listing''
           = Inr [''https://example.com/story'', ''https://example.com/story'']"
    and "extractArticleLinks (site [Some ''/story'', Some ''/broken'', Some ''/other'']) cfg ''listing''
           = Inr [''https://example.com/story'', ''https://example.com/broken'',
                  ''https://example.com/other'']"
    and "extractArticleLinks (site [Some ''/story'', Some ''http-archive/2019.html'']) cfg ''listing''
           = Inr [''https://example.com/story'', ''http-archive/2019.html'']"
  using assms
  by (simp_all add: extractArticleLinks_def new_source_selectors site_listing site_fields
        truthy_def startsWith_def)








lemma scrape_after_throw:
  assumes "puppeteer_launch env = None" and "browser_close env = None"
    and "scrapeArticles env self True = Threw e as"
  shows "scrape env self browser =
           (Inr \<lparr> articles = [], totalScraped = 0,
                  errors = [''Failed to scrape '' @ name (config self) @ '': '' @ error_message e],
                  executionTime = clock_end env - clock_start env \<rparr>, False)"
  using assms by (simp add: scrape_def)

lemma scrape_launch_fails:
  assumes "puppeteer_launch env = Some e"
  shows "scrape env self False =
           (Inr \<lparr> articles = [], totalScraped = 0,
                  errors = [''Failed to scrape '' @ name (config self) @ '': '' @ error_message e],
                  executionTime = clock_end env - clock_start env \<rparr>, False)"
  using assms by (simp add: scrape_def)

text \<open>An attempt that resolves is final, whatever the outcome holds.\<close>

lemma first_attempt_is_final:
  assumes "1 \<le> retryAttempts options" and "scraper 1 = Inr r"
  shows "runScraperWithRetry options scraper = \<lparr> outcome = r, events = [Attempt 1] \<rparr>"
  unfolding runScraperWithRetry_def using assms
  by (subst retry_loop.simps) simp

text \<open>
  The first \<open>scrape()\<close> of an instance resolves when its fatal failure is a browser
  that does not launch, or an exception out of \<open>scrapeArticles\<close> with a browser that
  closes cleanly.
\<close>

lemma launch_failure_resolves:
  assumes "puppeteer_launch (envs 1) = Some e"
  shows "instance_of self envs 1 =
           Inr \<lparr> articles = [], totalScraped = 0,
                 errors = [''Failed to scrape '' @ name (config self) @ '': '' @ error_message e],
                 executionTime = clock_end (envs 1) - clock_start (envs 1) \<rparr>"
proof -
  have "instance_of self envs 1 = fst (scrape (envs 1) self False)"
    by (simp add: instance_of_def)
  then show ?thesis by (simp only: scrape_launch_fails [OF assms] fst_conv)
qed

lemma run_failure_resolves:
  assumes "puppeteer_launch (envs 1) = None" and "browser_close (envs 1) = None"
    and "scrapeArticles (envs 1) self True = Threw e as"
  shows "instance_of self envs 1 =
           Inr \<lparr> articles = [], totalScraped = 0,
                 errors = [''Failed to scrape '' @ name (config self) @ '': '' @ error_message e],
                 executionTime = clock_end (envs 1) - clock_start (envs 1) \<rparr>"
proof -
  have "instance_of self envs 1 = fst (scrape (envs 1) self False)"
    by (simp add: instance_of_def)
  then show ?thesis by (simp only: scrape_after_throw [OF assms] fst_conv)
qed

text \<open>
  C1. The claim fails on the code: a browser that cannot be launched is a fatal
  failure, \<open>scrape()\<close> catches it and resolves with the one error string, so
  \<open>runScraperWithRetry\<close> returns that outcome on attempt 1 and never retries, although
  \<open>retryAttempts\<close> is 3. Evaluated for the scraper \<open>new_source\<close> on a machine where
  \<open>puppeteer.launch\<close> throws on every call.
\<close>

theorem launch_failure_is_not_retried:
  "retryAttempts default_options = 3
   \<and> puppeteer_launch no_browser = Some (JsError ''Failed to launch the browser process!'')
   \<and> runScraperWithRetry default_options (instance_of new_source (\<lambda>k. no_browser))
       = \<lparr> outcome = \<lparr> articles = [], totalScraped = 0,
                      errors = [''Failed to scrape New Source: Failed to launch the browser process!''],
                      executionTime = 9000 \<rparr>,
           events = [Attempt 1] \<rparr>"
proof -
  have launch: "puppeteer_launch no_browser = Some (JsError ''Failed to launch the browser process!'')"
    by (simp add: no_browser_def)
  have clock: "clock_end no_browser = 1700000009000" "clock_start no_browser = 1700000000000"
    by (simp_all add: no_browser_def site_def)
  have first: "instance_of new_source (\<lambda>k. no_browser) 1
      = Inr \<lparr> articles = [], totalScraped = 0,
              errors = [''Failed to scrape New Source: Failed to launch the browser process!''],
              executionTime = 9000 \<rparr>"
    by (simp add: launch_failure_resolves [of "\<lambda>k. no_browser", OF launch] new_source_fields clock)
  have attempts: "1 \<le> retryAttempts default_options" by (simp add: default_retryAttempts)
  show ?thesis
    by (simp add: default_retryAttempts launch
          first_attempt_is_final [of default_options "instance_of new_source (\<lambda>k. no_browser)",
            OF attempts first])
qed






















text \<open>Every link that \<open>extractArticleLinks\<close> returns is such a link.\<close>

lemma link_of_later: "link_of env cfg hrefs u \<Longrightarrow> link_of env cfg (href # hrefs) u"
proof -
  assume "link_of env cfg hrefs u"
  then obtain h where "Some h \<in> set hrefs" and "h \<noteq> []"
    and "if startsWith h ''http'' then u = h else new_URL env h (baseUrl cfg) = Inr u"
    unfolding link_of_def by blast
  then show ?thesis unfolding link_of_def by (intro exI [of _ h]) simp
qed

lemma link_of_first:
  assumes "h \<noteq> []"
    and "if startsWith h ''http'' then u = h else new_URL env h (baseUrl cfg) = Inr u"
  shows "link_of env cfg (Some h # hrefs) u"
  unfolding link_of_def using assms by (intro exI [of _ h]) simp

lemma collect_links_shape:
  assumes "collect_links env cfg hrefs links = Inr out"
  shows "\<exists>new. out = links @ new \<and> (\<forall>u\<in>set new. link_of env cfg hrefs u)"
  using assms
proof (induction hrefs arbitrary: links)
  case Nil
  then show ?case by simp
next
  case (Cons href hrefs)
  show ?case
  proof (cases "truthy href")
    case False
    then have "collect_links env cfg hrefs links = Inr out" using Cons.prems by simp
    from Cons.IH [OF this] show ?thesis using link_of_later by blast
  next
    case True
    then obtain h where h: "href = Some h" "h \<noteq> []"
      by (cases href) (simp_all add: truthy_def)
    show ?thesis
    proof (cases "startsWith h ''http''")
      case True
      then have "collect_links env cfg hrefs (links @ [h]) = Inr out"
        using Cons.prems h by (simp add: truthy_def)
      from Cons.IH [OF this] obtain new where
        new: "out = (links @ [h]) @ new" "\<forall>u\<in>set new. link_of env cfg hrefs u"
        by blast
      have "out = links @ (h # new)" using new(1) by simp
      moreover have "link_of env cfg (href # hrefs) h"
        unfolding h(1) using h(2) True by (intro link_of_first) simp_all
      ultimately show ?thesis using new(2) link_of_later by (intro exI [of _ "h # new"]) auto
    next
      case False
      then obtain fullUrl where full: "new_URL env h (baseUrl cfg) = Inr fullUrl"
        and rest: "collect_links env cfg hrefs (links @ [fullUrl]) = Inr out"
        using Cons.prems h by (auto simp add: truthy_def split: sum.splits)
      from Cons.IH [OF rest] obtain new where
        new: "out = (links @ [fullUrl]) @ new" "\<forall>u\<in>set new. link_of env cfg hrefs u"
        by blast
      have "out = links @ (fullUrl # new)" using new(1) by simp
      moreover have "link_of env cfg (href # hrefs) fullUrl"
        unfolding h(1) using h(2) False full by (intro link_of_first) simp_all
      ultimately show ?thesis using new(2) link_of_later by (intro exI [of _ "fullUrl # new"]) auto
    qed
  qed
qed

text \<open>
  C7. The claim fails on the code for a relative link that starts with the letters
  \<open>http\<close>. On a listing page with the links \<open>/story\<close> and \<open>http-archive/2019.html\<close>,
  the first is resolved against the base URL and the second, which is not an absolute
  URL, is returned as it is, because \<open>href.startsWith('http')\<close> holds for it; that
  string is what \<open>scrapeArticle\<close> then navigates to and would store as \<open>url\<close>.
\<close>

theorem relative_link_starting_with_http_is_not_resolved:
  "extractArticleLinks (site [Some ''/story'', Some ''http-archive/2019.html''])
       new_source_config ''listing''
     = Inr [''https://example.com/story'', ''http-archive/2019.html'']
   \<and> is_absolute_url ''https://example.com/story''
   \<and> \<not> is_absolute_url ''http-archive/2019.html''
   \<and> startsWith ''http-archive/2019.html'' ''http''"
proof -
  have base: "baseUrl new_source_config = ''https://example.com''"
    by (simp add: new_source_config_def)
  have abs: "is_absolute_url ''https://example.com/story''"
    by (simp add: is_absolute_url_def letters_def scheme_chars_def)
  have rel: "\<not> is_absolute_url ''http-archive/2019.html''"
    by (simp add: is_absolute_url_def letters_def scheme_chars_def)
  show ?thesis
    using abs rel by (simp add: site_links(4) [OF refl base] startsWith_def)
qed









end
